theory Spec2Isabelle
  imports Main "HOL-Library.Multiset"
begin

section \<open>Data model (types.ts)\<close>

datatype GameMode = CLASSIC | TIME

datatype GameStatus = MENU | PLAYING | GAMEOVER

text \<open>
  \<open>interface Block\<close>. The fields \<open>id\<close> and \<open>value\<close> carry a prime because the plain
  names are taken in Isabelle. JavaScript numbers that only ever hold integers are
  modelled as \<open>int\<close>; the optional field \<open>isRemoving\<close> is an option.
\<close>

record Block =
  id' :: string
  value' :: int
  row :: int
  col :: int
  isRemoving :: "bool option"

definition GRID_COLS :: nat where
  "GRID_COLS = 6"

definition GRID_ROWS :: int where
  "GRID_ROWS = 10"

definition INITIAL_ROWS :: int where
  "INITIAL_ROWS = 4"

definition TIME_LIMIT :: int where
  "TIME_LIMIT = 10"

text \<open>
  The state cells of the component \<open>App\<close> (one field per \<open>useState\<close> call), passed
  explicitly: every handler and effect takes the state and returns the state that the
  queued updates produce.
\<close>

record AppState =
  status :: GameStatus
  mode :: GameMode
  blocks :: "Block list"
  targetSum :: int
  selectedIds :: "string list"
  score :: int
  timeLeft :: int
  isPaused :: bool

section \<open>Randomness\<close>

text \<open>
  \<open>generateId\<close> and \<open>getRandomValue\<close> draw from \<open>Math.random\<close>. The draws made
  while one row is built are a parameter: \<open>gen c\<close> is the pair (id, value) drawn for
  column \<open>c\<close>.
\<close>

type_synonym rowgen = "nat \<Rightarrow> string \<times> int"

section \<open>Row spawner\<close>

text \<open>
  \<open>addRow\<close>: the updater handed to \<open>setBlocks\<close>, together with the \<open>setStatus\<close>
  call it makes when some tile already sits in row 0.
\<close>

definition newRow :: "rowgen \<Rightarrow> Block list" where
  "newRow gen =
     map (\<lambda>c. \<lparr>id' = fst (gen c), value' = snd (gen c), row = GRID_ROWS - 1,
               col = int c, isRemoving = None\<rparr>) [0..<GRID_COLS]"

definition addRow :: "rowgen \<Rightarrow> AppState \<Rightarrow> AppState" where
  "addRow gen s =
     (let prev = blocks s;
          isGameOver = (\<exists>b \<in> set prev. row b = 0)
      in if isGameOver then s\<lparr>status := GAMEOVER\<rparr>
         else (let shifted = map (\<lambda>b. b\<lparr>row := row b - 1\<rparr>) prev
               in s\<lparr>blocks := shifted @ newRow gen\<rparr>))"

section \<open>Grid model: removal and gravity\<close>

text \<open>
  The updater that the match effect hands to \<open>setBlocks\<close> (the specification calls it
  \<open>removeAndCompact\<close>). \<open>compactColumn\<close> is the body of the loop over the columns:
  the tiles of column \<open>c\<close>, sorted by descending row (\<open>Array.prototype.sort\<close> is
  stable, as \<open>sort_key\<close> is), each pushed with the row \<open>GRID_ROWS - 1 - idx\<close>. The loop
  appends the columns in the order \<open>0, 1, ..., GRID_COLS - 1\<close>.
\<close>

definition compactColumn :: "Block list \<Rightarrow> nat \<Rightarrow> Block list" where
  "compactColumn remaining c =
     (let colBlocks = sort_key (\<lambda>b. - row b) (filter (\<lambda>b. col b = int c) remaining)
      in map (\<lambda>(idx, b). b\<lparr>row := GRID_ROWS - 1 - int idx\<rparr>) (enumerate 0 colBlocks))"

definition removeAndCompact :: "string list \<Rightarrow> Block list \<Rightarrow> Block list" where
  "removeAndCompact removedIds prev =
     (let remaining = filter (\<lambda>b. id' b \<notin> set removedIds) prev
      in concat (map (compactColumn remaining) [0..<GRID_COLS]))"

text \<open>The test of the last effect: some tile has a negative row.\<close>

definition hasOverflow :: "Block list \<Rightarrow> bool" where
  "hasOverflow bs = (\<exists>b \<in> set bs. row b < 0)"

definition overflowEffect :: "AppState \<Rightarrow> AppState" where
  "overflowEffect s =
     (if status s = PLAYING \<and> hasOverflow (blocks s) then s\<lparr>status := GAMEOVER\<rparr> else s)"

section \<open>Target generator\<close>

text \<open>
  \<open>generateTarget\<close>. Its two random draws are parameters: \<open>rnd3\<close> is the value of
  \<open>Math.floor(Math.random() * 3)\<close>, one of 0, 1, 2, and \<open>shuffle\<close> is what the sort
  with the random comparator makes of the copied array, some rearrangement of it.
\<close>

definition generateTarget :: "nat \<Rightarrow> (Block list \<Rightarrow> Block list) \<Rightarrow> Block list \<Rightarrow> int" where
  "generateTarget rnd3 shuffle bs =
     (if length bs = 0 then 10
      else (let count = rnd3 + 2;
                shuffled = shuffle bs;
                sum = foldl (\<lambda>acc b. acc + value' b) 0 (take count shuffled)
            in max 10 (min sum 45)))"

section \<open>Starting a game\<close>

text \<open>
  \<open>initGame\<close> sets every state cell, so the model needs no previous state. The draws of
  the nested loops are a parameter (\<open>gen r c\<close> is the pair drawn for row \<open>r\<close>,
  column \<open>c\<close>), as are the two draws of \<open>generateTarget\<close>.
\<close>

definition initGame ::
  "(nat \<Rightarrow> nat \<Rightarrow> string \<times> int) \<Rightarrow> nat \<Rightarrow> (Block list \<Rightarrow> Block list) \<Rightarrow> GameMode \<Rightarrow> AppState" where
  "initGame gen rnd3 shuffle selectedMode =
     (let initialBlocks =
            concat (map (\<lambda>r. map (\<lambda>c. \<lparr>id' = fst (gen r c), value' = snd (gen r c),
                                          row = int r, col = int c, isRemoving = None\<rparr>)
                                [0..<GRID_COLS])
                        [nat (GRID_ROWS - INITIAL_ROWS)..<nat GRID_ROWS])
      in \<lparr>status = PLAYING, mode = selectedMode, blocks = initialBlocks,
          targetSum = generateTarget rnd3 shuffle initialBlocks, selectedIds = [],
          score = 0, timeLeft = TIME_LIMIT, isPaused = False\<rparr>)"

section \<open>Selection tracker\<close>

definition currentSum :: "AppState \<Rightarrow> int" where
  "currentSum s =
     foldl (\<lambda>acc b. acc + value' b) 0
       (filter (\<lambda>b. id' b \<in> set (selectedIds s)) (blocks s))"

definition toggleBlock :: "string \<Rightarrow> AppState \<Rightarrow> AppState" where
  "toggleBlock i s =
     (if status s \<noteq> PLAYING \<or> isPaused s then s
      else s\<lparr>selectedIds :=
               (let prev = selectedIds s
                in if i \<in> set prev then filter (\<lambda>j. j \<noteq> i) prev else prev @ [i])\<rparr>)"

section \<open>Match resolver\<close>

text \<open>
  The body of the first effect, run by React after a render in which \<open>currentSum\<close>,
  \<open>targetSum\<close>, \<open>selectedIds\<close> or \<open>mode\<close> changed. Its updates are queued in the
  order written and applied together: the score, the compaction, the cleared
  selection, then either \<open>addRow\<close> (whose updater therefore sees the compacted grid) or
  the reset countdown. The confetti call has no effect on the state. Both acting
  branches store a fresh empty array in \<open>selectedIds\<close>, so the render after an action
  always has changed dependencies; a render with unchanged dependencies follows a run
  in which neither branch was taken, and there the body would do nothing again.
\<close>

definition matchEffect :: "rowgen \<Rightarrow> AppState \<Rightarrow> AppState" where
  "matchEffect gen s =
     (if currentSum s = targetSum s \<and> targetSum s > 0 then
        (let removedIds = selectedIds s;
             s1 = s\<lparr>score := score s + targetSum s * int (length removedIds)\<rparr>;
             s2 = s1\<lparr>blocks := removeAndCompact removedIds (blocks s1)\<rparr>;
             s3 = s2\<lparr>selectedIds := []\<rparr>
         in if mode s = CLASSIC then addRow gen s3 else s3\<lparr>timeLeft := TIME_LIMIT\<rparr>)
      else if currentSum s > targetSum s then s\<lparr>selectedIds := []\<rparr>
      else s)"

section \<open>Target regeneration\<close>

text \<open>
  The second effect has the dependencies \<open>[blocks.length, status]\<close>: React runs its body
  after the first render and after every render whose dependencies differ from those
  of the render before. \<open>prev\<close> is \<open>None\<close> at the first render and otherwise holds
  the dependencies of the previous render.
\<close>

definition targetDeps :: "AppState \<Rightarrow> nat \<times> GameStatus" where
  "targetDeps s = (length (blocks s), status s)"

definition targetEffect ::
  "nat \<Rightarrow> (Block list \<Rightarrow> Block list) \<Rightarrow> (nat \<times> GameStatus) option \<Rightarrow> AppState \<Rightarrow> AppState" where
  "targetEffect rnd3 shuffle prev s =
     (if prev \<noteq> Some (targetDeps s) then
        (if status s = PLAYING \<and> length (blocks s) > 0
         then s\<lparr>targetSum := generateTarget rnd3 shuffle (blocks s)\<rparr> else s)
      else s)"

section \<open>Countdown\<close>

text \<open>
  The interval exists only while the status is PLAYING, the mode is TIME and the game
  is not paused; the cleanup of the third effect clears it otherwise. \<open>countdown\<close> is the
  updater handed to \<open>setTimeLeft\<close>: it returns the new value and whether it called
  \<open>addRow\<close>. \<open>tick\<close> is one firing of the interval, returning the new state and the
  number of calls of \<open>addRow\<close> it made; \<open>ticks n\<close> is \<open>n\<close> firings in a row with
  nothing in between, the \<open>k\<close>-th one drawing its new row from \<open>gens k\<close>.
\<close>

definition timerActive :: "AppState \<Rightarrow> bool" where
  "timerActive s = (status s = PLAYING \<and> mode s = TIME \<and> \<not> isPaused s)"

definition countdown :: "int \<Rightarrow> int \<times> bool" where
  "countdown prev = (if prev \<le> 1 then (TIME_LIMIT, True) else (prev - 1, False))"

definition tick :: "rowgen \<Rightarrow> AppState \<Rightarrow> AppState \<times> nat" where
  "tick gen s =
     (if timerActive s then
        (let (t, spawn) = countdown (timeLeft s);
             s' = s\<lparr>timeLeft := t\<rparr>
         in if spawn then (addRow gen s', 1) else (s', 0))
      else (s, 0))"

fun ticks :: "nat \<Rightarrow> (nat \<Rightarrow> rowgen) \<Rightarrow> AppState \<Rightarrow> AppState \<times> nat" where
  "ticks 0 gens s = (s, 0)"
| "ticks (Suc n) gens s =
     (let (s1, k1) = ticks n gens s;
          (s2, k2) = tick (gens n) s1
      in (s2, k1 + k2))"

section \<open>Example sessions\<close>

definition tile :: "string \<Rightarrow> int \<Rightarrow> int \<Rightarrow> int \<Rightarrow> Block" where
  "tile i v r c = \<lparr>id' = i, value' = v, row = r, col = c, isRemoving = None\<rparr>"

definition ex_gen :: rowgen where
  "ex_gen c = (replicate (Suc c) CHR ''n'', 9)"

text \<open>Column 0 holds tiles in rows 9, 7 and 5, column 1 one tile in row 3.\<close>

definition ex_gaps :: "Block list" where
  "ex_gaps = [tile ''a'' 4 9 0, tile ''d'' 6 3 1, tile ''b'' 5 7 0, tile ''c'' 9 5 0]"

definition ex_session :: "GameMode \<Rightarrow> int \<Rightarrow> string list \<Rightarrow> AppState" where
  "ex_session m t sel =
     \<lparr>status = PLAYING, mode = m, blocks = ex_gaps, targetSum = t, selectedIds = sel,
      score = 0, timeLeft = 7, isPaused = False\<rparr>"

text \<open>A grid whose top tile sits in row 0, and the same grid one row lower.\<close>

definition ex_full :: AppState where
  "ex_full = (ex_session TIME 10 [])\<lparr>blocks := [tile ''t'' 1 0 2, tile ''u'' 2 1 2]\<rparr>"

definition ex_almost :: AppState where
  "ex_almost = (ex_session TIME 10 [])\<lparr>blocks := [tile ''t'' 1 1 2, tile ''u'' 2 2 2]\<rparr>"

text \<open>
  A fresh CLASSIC game whose bottom row holds six tiles worth 2 under three rows of
  tiles worth 3, with the target 12 (four tiles of row 6), and the session the player
  reaches from it by selecting the six tiles of the bottom row one after the other
  (the sums 2, 4, \<dots>, 10 on the way stay below the target).
\<close>

definition ex_init :: "nat \<Rightarrow> nat \<Rightarrow> string \<times> int" where
  "ex_init r c =
     (if r = 9 then (replicate (Suc c) CHR ''x'', 2)
      else (replicate (Suc c) CHR ''y'' @ replicate (9 - r) CHR ''z'', 3))"

definition ex_new_game :: AppState where
  "ex_new_game = initGame ex_init 2 (\<lambda>bs. bs) CLASSIC"

definition ex_six :: AppState where
  "ex_six = fold toggleBlock (map (\<lambda>c. replicate (Suc c) CHR ''x'') [0..<6]) ex_new_game"

section \<open>Auxiliary facts\<close>

lemma foldl_add_sum_list: "foldl (\<lambda>acc b. acc + f b) a xs = a + sum_list (map f xs)"
  by (induction xs arbitrary: a) (simp_all add: add.assoc)

lemma currentSum_sum_list:
  "currentSum s = sum_list (map value' (filter (\<lambda>b. id' b \<in> set (selectedIds s)) (blocks s)))"
  by (simp add: currentSum_def foldl_add_sum_list)

lemma currentSum_no_selection: "selectedIds s = [] \<Longrightarrow> currentSum s = 0"
  by (simp add: currentSum_sum_list)


lemma addRow_frame:
  "score (addRow gen s) = score s" "selectedIds (addRow gen s) = selectedIds s"
  "targetSum (addRow gen s) = targetSum s" "timeLeft (addRow gen s) = timeLeft s"
  "mode (addRow gen s) = mode s" "isPaused (addRow gen s) = isPaused s"
  by (simp_all add: addRow_def Let_def)



lemma filter_id_append_absent:
  "i \<notin> id' ` set bs \<Longrightarrow>
   filter (\<lambda>b. id' b \<in> set (sel @ [i])) bs = filter (\<lambda>b. id' b \<in> set sel) bs"
  by (induction bs) auto

lemma filter_id_remove_absent:
  "i \<notin> id' ` set bs \<Longrightarrow>
   filter (\<lambda>b. id' b \<in> set (filter (\<lambda>j. j \<noteq> i) sel)) bs = filter (\<lambda>b. id' b \<in> set sel) bs"
  by (induction bs) auto

lemma length_filter_conj_le: "length (filter (\<lambda>x. Q x \<and> P x) xs) \<le> length (filter P xs)"
  by (induction xs) auto

lemma mset_filter_split:
  "\<forall>x. \<not> (P x \<and> Q x) \<Longrightarrow>
   mset (filter P xs) + mset (filter Q xs) = mset (filter (\<lambda>x. P x \<or> Q x) xs)"
  by (induction xs) auto

lemma mset_take_subset: "mset (take n xs) \<subseteq># mset xs"
proof -
  have "mset xs = mset (take n xs) + mset (drop n xs)"
    by (metis append_take_drop_id mset_append)
  then show ?thesis by simp
qed

subsection \<open>Renumbering one column\<close>

lemma renumber_rows:
  "list_all2 (\<lambda>n old. n = old\<lparr>row := row n\<rparr>)
     (map (\<lambda>(idx, b). b\<lparr>row := GRID_ROWS - 1 - int idx\<rparr>) (enumerate k xs)) xs \<and>
   map row (map (\<lambda>(idx, b). b\<lparr>row := GRID_ROWS - 1 - int idx\<rparr>) (enumerate k xs)) =
     map (\<lambda>i. GRID_ROWS - 1 - int i) [k..<k + length xs]"
proof (induction xs arbitrary: k)
  case Nil
  then show ?case by simp
next
  case (Cons x xs)
  from Cons.IH [of "Suc k"] show ?case
    by (simp add: upt_conv_Cons del: upt_Suc)
qed

lemma renumber_forgets_row:
  "map (\<lambda>b. b\<lparr>row := 0\<rparr>) (map (\<lambda>(idx, b). b\<lparr>row := GRID_ROWS - 1 - int idx\<rparr>) (enumerate k xs)) =
   map (\<lambda>b. b\<lparr>row := 0\<rparr>) xs"
  by (induction xs arbitrary: k) simp_all

lemma renumber_keeps_col:
  "map col (map (\<lambda>(idx, b). b\<lparr>row := GRID_ROWS - 1 - int idx\<rparr>) (enumerate k xs)) = map col xs"
  by (induction xs arbitrary: k) simp_all

lemma compactColumn_col: "b \<in> set (compactColumn rem c) \<Longrightarrow> col b = int c"
proof -
  assume "b \<in> set (compactColumn rem c)"
  then have "col b \<in> set (map col (compactColumn rem c))" by simp
  also have "map col (compactColumn rem c) =
      map col (sort_key (\<lambda>b. - row b) (filter (\<lambda>b. col b = int c) rem))"
    by (simp add: compactColumn_def Let_def renumber_keeps_col del: map_map)
  finally show ?thesis by auto
qed

lemma compactColumn_forgets_row:
  "mset (map (\<lambda>b. b\<lparr>row := 0\<rparr>) (compactColumn rem c)) =
   mset (map (\<lambda>b. b\<lparr>row := 0\<rparr>) (filter (\<lambda>b. col b = int c) rem))"
proof -
  have "map (\<lambda>b. b\<lparr>row := 0\<rparr>) (compactColumn rem c) =
        map (\<lambda>b. b\<lparr>row := 0\<rparr>) (sort_key (\<lambda>b. - row b) (filter (\<lambda>b. col b = int c) rem))"
    by (simp add: compactColumn_def Let_def renumber_forgets_row del: map_map)
  then show ?thesis by simp
qed

lemma compactColumn_sorted:
  "\<exists>S. mset S = mset (filter (\<lambda>b. col b = int c) rem) \<and>
       sorted_wrt (\<lambda>a b. row b \<le> row a) S \<and>
       list_all2 (\<lambda>n old. n = old\<lparr>row := row n\<rparr>) (compactColumn rem c) S \<and>
       map row (compactColumn rem c) = map (\<lambda>i. GRID_ROWS - 1 - int i) [0..<length S]"
proof -
  let ?S = "sort_key (\<lambda>b. - row b) (filter (\<lambda>b. col b = int c) rem)"
  have m: "mset ?S = mset (filter (\<lambda>b. col b = int c) rem)" by simp
  have "sorted (map (\<lambda>b. - row b) ?S)" by (rule sorted_sort_key)
  then have s: "sorted_wrt (\<lambda>a b. row b \<le> row a) ?S"
    by (simp add: sorted_wrt_map)
  have r: "list_all2 (\<lambda>n old. n = old\<lparr>row := row n\<rparr>) (compactColumn rem c) ?S \<and>
           map row (compactColumn rem c) = map (\<lambda>i. GRID_ROWS - 1 - int i) [0..<length ?S]"
    using renumber_rows [of 0 ?S] by (simp add: compactColumn_def Let_def del: map_map)
  from m s r show ?thesis by blast
qed

lemma compactColumn_rows:
  assumes "b \<in> set (compactColumn rem c)"
  shows "GRID_ROWS - int (length (filter (\<lambda>b. col b = int c) rem)) \<le> row b \<and> row b < GRID_ROWS"
proof -
  let ?S = "sort_key (\<lambda>b. - row b) (filter (\<lambda>b. col b = int c) rem)"
  have "map row (compactColumn rem c) = map (\<lambda>i. GRID_ROWS - 1 - int i) [0..<length ?S]"
    using renumber_rows [of 0 ?S] by (simp add: compactColumn_def Let_def del: map_map)
  moreover from assms have "row b \<in> set (map row (compactColumn rem c))"
    by simp
  ultimately have "row b \<in> set (map (\<lambda>i. GRID_ROWS - 1 - int i) [0..<length ?S])"
    by simp
  then obtain i where "i < length ?S" and "row b = GRID_ROWS - 1 - int i"
    by auto
  then show ?thesis by simp
qed

lemma column_of_concat:
  "filter (\<lambda>b. col b = c) (concat (map (compactColumn rem) [0..<n])) =
     (if 0 \<le> c \<and> c < int n then compactColumn rem (nat c) else [])"
proof (induction n)
  case 0
  then show ?case by auto
next
  case (Suc n)
  have last: "filter (\<lambda>b. col b = c) (compactColumn rem n) =
      (if c = int n then compactColumn rem n else [])"
    using compactColumn_col [where rem = rem and c = n] by (auto simp: filter_empty_conv filter_id_conv)
  show ?case
  proof (cases "c = int n")
    case True
    with Suc last show ?thesis by simp
  next
    case False
    with Suc last show ?thesis by auto
  qed
qed

lemma columns_partition:
  "mset (map (\<lambda>b. b\<lparr>row := 0\<rparr>) (concat (map (compactColumn rem) [0..<n]))) =
   mset (map (\<lambda>b. b\<lparr>row := 0\<rparr>) (filter (\<lambda>b. 0 \<le> col b \<and> col b < int n) rem))"
proof (induction n)
  case 0
  then show ?case by simp
next
  case (Suc n)
  have split: "mset (filter (\<lambda>b. 0 \<le> col b \<and> col b < int n) rem) +
               mset (filter (\<lambda>b. col b = int n) rem) =
               mset (filter (\<lambda>b. 0 \<le> col b \<and> col b < int (Suc n)) rem)"
  proof -
    have "mset (filter (\<lambda>b. 0 \<le> col b \<and> col b < int n) rem) +
          mset (filter (\<lambda>b. col b = int n) rem) =
          mset (filter (\<lambda>b. (0 \<le> col b \<and> col b < int n) \<or> col b = int n) rem)"
      by (rule mset_filter_split) auto
    also have "filter (\<lambda>b. (0 \<le> col b \<and> col b < int n) \<or> col b = int n) rem =
               filter (\<lambda>b. 0 \<le> col b \<and> col b < int (Suc n)) rem"
      by (rule filter_cong) auto
    finally show ?thesis .
  qed
  have "mset (map (\<lambda>b. b\<lparr>row := 0\<rparr>) (concat (map (compactColumn rem) [0..<Suc n]))) =
        mset (map (\<lambda>b. b\<lparr>row := 0\<rparr>) (concat (map (compactColumn rem) [0..<n]))) +
        mset (map (\<lambda>b. b\<lparr>row := 0\<rparr>) (compactColumn rem n))"
    by simp
  also have "\<dots> = mset (map (\<lambda>b. b\<lparr>row := 0\<rparr>) (filter (\<lambda>b. 0 \<le> col b \<and> col b < int n) rem)) +
                  mset (map (\<lambda>b. b\<lparr>row := 0\<rparr>) (filter (\<lambda>b. col b = int n) rem))"
    by (simp only: Suc.IH compactColumn_forgets_row)
  also have "\<dots> = image_mset (\<lambda>b. b\<lparr>row := 0\<rparr>)
                    (mset (filter (\<lambda>b. 0 \<le> col b \<and> col b < int n) rem) +
                     mset (filter (\<lambda>b. col b = int n) rem))"
    by simp
  also have "\<dots> = mset (map (\<lambda>b. b\<lparr>row := 0\<rparr>) (filter (\<lambda>b. 0 \<le> col b \<and> col b < int (Suc n)) rem))"
    by (simp only: split mset_map)
  finally show ?case .
qed

text \<open>
  A grid at rest (rows inside the grid, no cell occupied twice) holds at most
  \<open>GRID_ROWS\<close> tiles in each column.
\<close>

lemma resting_grid_column_bound:
  assumes rows: "\<forall>b \<in> set G. 0 \<le> row b \<and> row b < GRID_ROWS"
    and cells: "distinct (map (\<lambda>b. (row b, col b)) G)"
  shows "int (length (filter (\<lambda>b. col b = c) G)) \<le> GRID_ROWS"
proof -
  let ?F = "filter (\<lambda>b. col b = c) G"
  have "distinct (map (\<lambda>b. (row b, col b)) ?F)"
    using cells by (rule distinct_map_filter)
  moreover have "map (\<lambda>b. (row b, col b)) ?F = map (\<lambda>r. (r, c)) (map row ?F)"
    by simp
  ultimately have "distinct (map (\<lambda>r. (r, c)) (map row ?F))"
    by simp
  then have d: "distinct (map row ?F)"
    by (rule distinct_map [THEN iffD1, THEN conjunct1])
  have "set (map row ?F) \<subseteq> {0..<GRID_ROWS}"
    using rows by auto
  then have "card (set (map row ?F)) \<le> card {0..<GRID_ROWS}"
    by (intro card_mono) simp_all
  with d have "length (map row ?F) \<le> card {0..<GRID_ROWS}"
    by (simp only: distinct_card)
  then show ?thesis
    by (simp add: GRID_ROWS_def)
qed

subsection \<open>The countdown, tick by tick\<close>

lemma tick_counting:
  "timerActive s \<Longrightarrow> 1 < timeLeft s \<Longrightarrow> tick gen s = (s\<lparr>timeLeft := timeLeft s - 1\<rparr>, 0)"
  by (simp add: tick_def countdown_def)

lemma tick_spawning:
  "timerActive s \<Longrightarrow> timeLeft s \<le> 1 \<Longrightarrow> tick gen s = (addRow gen (s\<lparr>timeLeft := TIME_LIMIT\<rparr>), 1)"
  by (simp add: tick_def countdown_def)

lemma ticks_counting:
  "timerActive s \<Longrightarrow> int k < timeLeft s \<Longrightarrow> ticks k gens s = (s\<lparr>timeLeft := timeLeft s - int k\<rparr>, 0)"
proof (induction k)
  case 0
  then show ?case by simp
next
  case (Suc k)
  then have ih: "ticks k gens s = (s\<lparr>timeLeft := timeLeft s - int k\<rparr>, 0)" by simp
  have act: "timerActive (s\<lparr>timeLeft := timeLeft s - int k\<rparr>)"
    using Suc.prems(1) by (simp add: timerActive_def)
  have "tick (gens k) (s\<lparr>timeLeft := timeLeft s - int k\<rparr>) =
          (s\<lparr>timeLeft := timeLeft s - int k - 1\<rparr>, 0)"
    using tick_counting [OF act, of "gens k"] Suc.prems(2) by simp
  with ih show ?case by (simp add: algebra_simps)
qed

lemma tick_timeLeft_nonneg: "0 \<le> timeLeft s \<Longrightarrow> 0 \<le> timeLeft (fst (tick gen s))"
  by (auto simp: tick_def countdown_def addRow_frame TIME_LIMIT_def)

lemma ticks_timeLeft_nonneg: "0 \<le> timeLeft s \<Longrightarrow> 0 \<le> timeLeft (fst (ticks n gens s))"
proof (induction n)
  case 0
  then show ?case by simp
next
  case (Suc n)
  then have "0 \<le> timeLeft (fst (ticks n gens s))" by simp
  then have "0 \<le> timeLeft (fst (tick (gens n) (fst (ticks n gens s))))"
    by (rule tick_timeLeft_nonneg)
  then show ?case by (simp add: case_prod_beta)
qed

subsection \<open>The example sessions, evaluated\<close>

lemma ex_currentSum: "currentSum (ex_session m t [''a'', ''d'']) = 10"
  by (simp add: currentSum_def ex_session_def ex_gaps_def tile_def)

lemma ex_compact_ad: "removeAndCompact [''a'', ''d''] ex_gaps = [tile ''b'' 5 9 0, tile ''c'' 9 8 0]"
  by code_simp

lemma ex_compact_b:
  "removeAndCompact [''b''] ex_gaps = [tile ''a'' 4 9 0, tile ''c'' 9 8 0, tile ''d'' 6 9 1]"
  by code_simp

lemma match_score_grows:
  assumes "currentSum s = targetSum s" "0 < targetSum s"
  shows "0 < targetSum s * int (length (selectedIds s))"
proof -
  from assms have "selectedIds s \<noteq> []"
    using currentSum_no_selection [of s] by auto
  then have "0 < int (length (selectedIds s))" by simp
  with assms(2) show ?thesis by simp
qed

subsection \<open>Selections and sums\<close>

lemma selected_tiles_count:
  assumes "distinct sel" and "distinct (map id' bs)" and "set sel \<subseteq> id' ` set bs"
  shows "length (filter (\<lambda>b. id' b \<in> set sel) bs) = length sel"
proof -
  let ?F = "filter (\<lambda>b. id' b \<in> set sel) bs"
  have d: "distinct (map id' ?F)"
    using assms(2) by (rule distinct_map_filter)
  have "set (map id' ?F) = set sel"
    using assms(3) by auto
  then have "card (set (map id' ?F)) = card (set sel)"
    by simp
  with d assms(1) have "length (map id' ?F) = length sel"
    by (simp only: distinct_card)
  then show ?thesis by simp
qed



section \<open>Row spawner: overflow\<close>

text \<open>
  C1. When some live tile occupies row 0, \<open>addRow\<close> leaves the grid (and every other
  state cell) as it was and sets the status to GAMEOVER. The test reads the rows before
  any shift: a grid with no tile in row 0 is never rejected, even when its topmost tile
  sits in row 1 and reaches row 0 by the shift; it is shifted and gets its new bottom
  row.
\<close>

theorem addRow_overflow:
  "((\<exists>b \<in> set (blocks s). row b = 0) \<longrightarrow>
      addRow gen s = s\<lparr>status := GAMEOVER\<rparr> \<and> blocks (addRow gen s) = blocks s) \<and>
   ((\<forall>b \<in> set (blocks s). row b \<noteq> 0) \<longrightarrow>
      status (addRow gen s) = status s \<and>
      blocks (addRow gen s) = map (\<lambda>b. b\<lparr>row := row b - 1\<rparr>) (blocks s) @ newRow gen)"
  by (auto simp: addRow_def Let_def)

theorem addRow_overflow_witness:
  "(\<exists>b \<in> set (blocks ex_full). row b = 0) \<and>
   blocks (addRow ex_gen ex_full) = blocks ex_full \<and>
   status (addRow ex_gen ex_full) = GAMEOVER \<and>
   0 \<notin> set (map row (blocks ex_almost)) \<and>
   1 \<in> set (map row (blocks ex_almost)) \<and>
   status (addRow ex_gen ex_almost) = PLAYING \<and>
   map row (blocks (addRow ex_gen ex_almost)) = [0, 1, 9, 9, 9, 9, 9, 9]"
proof -
  have f: "\<exists>b \<in> set (blocks ex_full). row b = 0"
    by (simp add: ex_full_def tile_def)
  have a: "0 \<notin> set (map row (blocks ex_almost))" and a1: "1 \<in> set (map row (blocks ex_almost))"
    by (simp_all add: ex_almost_def tile_def)
  from a have a': "\<forall>b \<in> set (blocks ex_almost). row b \<noteq> 0"
    by auto
  from addRow_overflow [of ex_full ex_gen] f
  have r1: "addRow ex_gen ex_full = ex_full\<lparr>status := GAMEOVER\<rparr> \<and>
            blocks (addRow ex_gen ex_full) = blocks ex_full"
    by blast
  then have r1': "status (addRow ex_gen ex_full) = GAMEOVER"
    by simp
  from addRow_overflow [of ex_almost ex_gen] a'
  have r2: "status (addRow ex_gen ex_almost) = status ex_almost \<and>
            blocks (addRow ex_gen ex_almost) =
              map (\<lambda>b. b\<lparr>row := row b - 1\<rparr>) (blocks ex_almost) @ newRow ex_gen"
    by blast
  have r2': "status (addRow ex_gen ex_almost) = PLAYING"
    using r2 by (simp add: ex_almost_def ex_session_def)
  have r2'': "map row (blocks (addRow ex_gen ex_almost)) = [0, 1, 9, 9, 9, 9, 9, 9]"
    using r2 by (simp add: ex_almost_def tile_def newRow_def GRID_COLS_def GRID_ROWS_def upt_rec)
  from f a a1 r1 r1' r2' r2'' show ?thesis by blast
qed

section \<open>Removal and gravity\<close>

text \<open>
  C2. For a grid whose tiles lie in the columns \<open>0 .. GRID_COLS - 1\<close> and any list of
  ids, \<open>removeAndCompact\<close> keeps exactly the tiles whose id is not in the list and
  changes nothing but their rows (first conjunct: forgetting the rows, the result and
  the survivors are the same multiset). In every column \<open>c\<close> the result lists the
  survivors \<open>S\<close> of that column from the bottom one upwards (\<open>S\<close> is sorted by
  descending original row), each unchanged but for its row, and their new rows are
  \<open>GRID_ROWS - 1, GRID_ROWS - 2, \<dots>\<close> without a gap.
\<close>

theorem removeAndCompact_gravity:
  assumes "\<forall>b \<in> set G. 0 \<le> col b \<and> col b < int GRID_COLS"
  shows "mset (map (\<lambda>b. b\<lparr>row := 0\<rparr>) (removeAndCompact ids G)) =
           mset (map (\<lambda>b. b\<lparr>row := 0\<rparr>) (filter (\<lambda>b. id' b \<notin> set ids) G)) \<and>
         (\<forall>c. \<exists>S. mset S = mset (filter (\<lambda>b. col b = c) (filter (\<lambda>b. id' b \<notin> set ids) G)) \<and>
                sorted_wrt (\<lambda>a b. row b \<le> row a) S \<and>
                list_all2 (\<lambda>n old. n = old\<lparr>row := row n\<rparr>)
                  (filter (\<lambda>b. col b = c) (removeAndCompact ids G)) S \<and>
                map row (filter (\<lambda>b. col b = c) (removeAndCompact ids G)) =
                  map (\<lambda>i. GRID_ROWS - 1 - int i) [0..<length S])"
proof -
  let ?rem = "filter (\<lambda>b. id' b \<notin> set ids) G"
  have cols: "\<forall>b \<in> set ?rem. 0 \<le> col b \<and> col b < int GRID_COLS"
    using assms by simp
  then have all: "filter (\<lambda>b. 0 \<le> col b \<and> col b < int GRID_COLS) ?rem = ?rem"
    by (simp only: filter_id_conv)
  have survivors: "mset (map (\<lambda>b. b\<lparr>row := 0\<rparr>) (removeAndCompact ids G)) =
      mset (map (\<lambda>b. b\<lparr>row := 0\<rparr>) ?rem)"
    using columns_partition [where rem = ?rem and n = GRID_COLS] by (simp only: removeAndCompact_def Let_def all)
  have column: "\<exists>S. mset S = mset (filter (\<lambda>b. col b = c) ?rem) \<and>
                sorted_wrt (\<lambda>a b. row b \<le> row a) S \<and>
                list_all2 (\<lambda>n old. n = old\<lparr>row := row n\<rparr>)
                  (filter (\<lambda>b. col b = c) (removeAndCompact ids G)) S \<and>
                map row (filter (\<lambda>b. col b = c) (removeAndCompact ids G)) =
                  map (\<lambda>i. GRID_ROWS - 1 - int i) [0..<length S]" for c
  proof (cases "0 \<le> c \<and> c < int GRID_COLS")
    case True
    then have "filter (\<lambda>b. col b = c) (removeAndCompact ids G) = compactColumn ?rem (nat c)"
      by (simp add: removeAndCompact_def Let_def column_of_concat del: filter_filter)
    moreover from True have "int (nat c) = c" by simp
    ultimately show ?thesis
      using compactColumn_sorted [where rem = ?rem and c = "nat c"] by (simp del: filter_filter)
  next
    case False
    then have "filter (\<lambda>b. col b = c) (removeAndCompact ids G) = []"
      by (auto simp: removeAndCompact_def Let_def column_of_concat simp del: filter_filter)
    moreover from False cols have "filter (\<lambda>b. col b = c) ?rem = []"
      by (auto simp: filter_empty_conv)
    ultimately show ?thesis
      by (simp del: filter_filter)
  qed
  from survivors column show ?thesis by blast
qed

theorem removeAndCompact_gravity_witness:
  "list_all (\<lambda>b. 0 \<le> col b \<and> col b < int GRID_COLS) ex_gaps \<and>
   mset (map (\<lambda>b. b\<lparr>row := 0\<rparr>) (removeAndCompact [''b''] ex_gaps)) =
     mset (map (\<lambda>b. b\<lparr>row := 0\<rparr>) (filter (\<lambda>b. id' b \<notin> set [''b'']) ex_gaps)) \<and>
   removeAndCompact [''b''] ex_gaps = [tile ''a'' 4 9 0, tile ''c'' 9 8 0, tile ''d'' 6 9 1]"
proof -
  have h: "list_all (\<lambda>b. 0 \<le> col b \<and> col b < int GRID_COLS) ex_gaps"
    by (simp add: ex_gaps_def tile_def GRID_COLS_def)
  then have h': "\<forall>b \<in> set ex_gaps. 0 \<le> col b \<and> col b < int GRID_COLS"
    by (simp only: list_all_iff)
  from removeAndCompact_gravity [OF h', of "[''b'']"] h ex_compact_b show ?thesis
    by blast
qed

text \<open>
  C10. For a grid whose rows lie in \<open>0 .. GRID_ROWS - 1\<close> and whose columns hold at most
  \<open>GRID_ROWS\<close> tiles each, every tile of the compacted grid has its row in
  \<open>0 .. GRID_ROWS - 1\<close>: no row is negative, and the effect that ends the game on a
  negative row leaves a session holding the compacted grid as it is.
\<close>

theorem compaction_stays_in_grid:
  assumes "\<forall>b \<in> set G. 0 \<le> row b \<and> row b < GRID_ROWS"
    and "\<forall>c. int (length (filter (\<lambda>b. col b = c) G)) \<le> GRID_ROWS"
  shows "(\<forall>b \<in> set (removeAndCompact ids G). 0 \<le> row b \<and> row b < GRID_ROWS) \<and>
         \<not> hasOverflow (removeAndCompact ids G) \<and>
         overflowEffect (s\<lparr>blocks := removeAndCompact ids G\<rparr>) = s\<lparr>blocks := removeAndCompact ids G\<rparr>"
proof -
  let ?rem = "filter (\<lambda>b. id' b \<notin> set ids) G"
  have inside: "0 \<le> row b \<and> row b < GRID_ROWS" if "b \<in> set (removeAndCompact ids G)" for b
  proof -
    from that obtain c where b: "b \<in> set (compactColumn ?rem c)"
      by (auto simp: removeAndCompact_def Let_def)
    have "length (filter (\<lambda>b. col b = int c) ?rem) \<le> length (filter (\<lambda>b. col b = int c) G)"
      by (simp add: length_filter_conj_le)
    moreover from assms(2) have "int (length (filter (\<lambda>b. col b = int c) G)) \<le> GRID_ROWS"
      by blast
    ultimately have "0 \<le> GRID_ROWS - int (length (filter (\<lambda>b. col b = int c) ?rem))"
      by linarith
    with compactColumn_rows [OF b] show ?thesis
      by linarith
  qed
  have no: "\<not> hasOverflow (removeAndCompact ids G)"
    using inside by (fastforce simp: hasOverflow_def)
  then have "overflowEffect (s\<lparr>blocks := removeAndCompact ids G\<rparr>) = s\<lparr>blocks := removeAndCompact ids G\<rparr>"
    by (simp add: overflowEffect_def)
  with inside no show ?thesis by blast
qed

theorem compaction_stays_in_grid_witness:
  "list_all (\<lambda>b. 0 \<le> row b \<and> row b < GRID_ROWS) ex_gaps \<and>
   distinct (map (\<lambda>b. (row b, col b)) ex_gaps) \<and>
   list_all (\<lambda>b. 0 \<le> row b \<and> row b < GRID_ROWS) (removeAndCompact [''b''] ex_gaps) \<and>
   \<not> hasOverflow (removeAndCompact [''b''] ex_gaps) \<and>
   map row (removeAndCompact [''b''] ex_gaps) = [9, 8, 9]"
proof -
  have r: "list_all (\<lambda>b. 0 \<le> row b \<and> row b < GRID_ROWS) ex_gaps"
    by (simp add: ex_gaps_def tile_def GRID_ROWS_def)
  then have r': "\<forall>b \<in> set ex_gaps. 0 \<le> row b \<and> row b < GRID_ROWS"
    by (simp only: list_all_iff)
  have d: "distinct (map (\<lambda>b. (row b, col b)) ex_gaps)"
    by (simp add: ex_gaps_def tile_def)
  have c: "\<forall>c. int (length (filter (\<lambda>b. col b = c) ex_gaps)) \<le> GRID_ROWS"
    using resting_grid_column_bound [OF r' d] by blast
  note t = compaction_stays_in_grid [OF r' c, of "[''b'']"]
  from t have "\<forall>b \<in> set (removeAndCompact [''b''] ex_gaps). 0 \<le> row b \<and> row b < GRID_ROWS"
    by blast
  then have "list_all (\<lambda>b. 0 \<le> row b \<and> row b < GRID_ROWS) (removeAndCompact [''b''] ex_gaps)"
    by (simp only: list_all_iff)
  moreover from t have "\<not> hasOverflow (removeAndCompact [''b''] ex_gaps)"
    by blast
  moreover have "map row (removeAndCompact [''b''] ex_gaps) = [9, 8, 9]"
    by (simp add: ex_compact_b tile_def)
  ultimately show ?thesis
    using r d by blast
qed

section \<open>Match and overshoot\<close>

text \<open>
  C3. The match effect changes the score exactly when \<open>currentSum = targetSum\<close> and
  \<open>targetSum > 0\<close>. In that case the score grows by the target times the number of
  selected ids (the length of \<open>selectedIds\<close>, which is the number of selected tiles
  when no id is selected twice, no two live tiles share an id and every selected id
  belongs to a live tile), the selection is emptied and the selected tiles are removed
  with gravity applied; in CLASSIC mode \<open>addRow\<close> then runs on the compacted grid and
  the countdown is untouched, in TIME mode the countdown is set to \<open>TIME_LIMIT\<close> and no
  row is added. In every other case nothing but the selection can change: above the
  target the selection is emptied, otherwise the state stays as it is. In particular
  with target 0 score, grid, status, countdown and target stay as they are, whatever
  the current sum is.
\<close>

theorem match_resolver:
  "(score (matchEffect gen s) \<noteq> score s \<longleftrightarrow> currentSum s = targetSum s \<and> 0 < targetSum s) \<and>
   (currentSum s = targetSum s \<and> 0 < targetSum s \<longrightarrow>
      score (matchEffect gen s) = score s + targetSum s * int (length (selectedIds s)) \<and>
      selectedIds (matchEffect gen s) = [] \<and>
      (mode s = CLASSIC \<longrightarrow>
         matchEffect gen s =
           addRow gen (s\<lparr>score := score s + targetSum s * int (length (selectedIds s)),
                         blocks := removeAndCompact (selectedIds s) (blocks s),
                         selectedIds := []\<rparr>) \<and>
         timeLeft (matchEffect gen s) = timeLeft s) \<and>
      (mode s = TIME \<longrightarrow>
         matchEffect gen s =
           s\<lparr>score := score s + targetSum s * int (length (selectedIds s)),
             blocks := removeAndCompact (selectedIds s) (blocks s),
             selectedIds := [], timeLeft := TIME_LIMIT\<rparr>)) \<and>
   (currentSum s = targetSum s \<and> 0 < targetSum s \<and> distinct (selectedIds s) \<and>
    distinct (map id' (blocks s)) \<and> set (selectedIds s) \<subseteq> id' ` set (blocks s) \<longrightarrow>
      score (matchEffect gen s) =
        score s + targetSum s *
          int (length (filter (\<lambda>b. id' b \<in> set (selectedIds s)) (blocks s)))) \<and>
   (targetSum s < currentSum s \<longrightarrow> matchEffect gen s = s\<lparr>selectedIds := []\<rparr>) \<and>
   (\<not> (currentSum s = targetSum s \<and> 0 < targetSum s) \<and> \<not> targetSum s < currentSum s \<longrightarrow>
      matchEffect gen s = s) \<and>
   (targetSum s = 0 \<longrightarrow>
      score (matchEffect gen s) = score s \<and> blocks (matchEffect gen s) = blocks s \<and>
      status (matchEffect gen s) = status s \<and> timeLeft (matchEffect gen s) = timeLeft s \<and>
      targetSum (matchEffect gen s) = targetSum s)"
proof -
  have fires: "currentSum s = targetSum s \<and> 0 < targetSum s \<Longrightarrow>
      score (matchEffect gen s) = score s + targetSum s * int (length (selectedIds s))"
    by (cases "mode s") (simp_all add: matchEffect_def Let_def addRow_frame)
  have quiet: "\<not> (currentSum s = targetSum s \<and> 0 < targetSum s) \<Longrightarrow>
      score (matchEffect gen s) = score s"
    by (auto simp: matchEffect_def)
  have iff: "score (matchEffect gen s) \<noteq> score s \<longleftrightarrow> currentSum s = targetSum s \<and> 0 < targetSum s"
    using fires quiet match_score_grows [of s] by fastforce
  have sel: "currentSum s = targetSum s \<and> 0 < targetSum s \<Longrightarrow> selectedIds (matchEffect gen s) = []"
    by (cases "mode s") (simp_all add: matchEffect_def Let_def addRow_frame)
  have classic: "currentSum s = targetSum s \<and> 0 < targetSum s \<Longrightarrow> mode s = CLASSIC \<Longrightarrow>
      matchEffect gen s =
           addRow gen (s\<lparr>score := score s + targetSum s * int (length (selectedIds s)),
                         blocks := removeAndCompact (selectedIds s) (blocks s),
                         selectedIds := []\<rparr>) \<and>
         timeLeft (matchEffect gen s) = timeLeft s"
    by (simp add: matchEffect_def Let_def addRow_frame)
  have time: "currentSum s = targetSum s \<and> 0 < targetSum s \<Longrightarrow> mode s = TIME \<Longrightarrow>
      matchEffect gen s =
           s\<lparr>score := score s + targetSum s * int (length (selectedIds s)),
             blocks := removeAndCompact (selectedIds s) (blocks s),
             selectedIds := [], timeLeft := TIME_LIMIT\<rparr>"
    by (simp add: matchEffect_def Let_def)
  have tiles: "score (matchEffect gen s) =
        score s + targetSum s *
          int (length (filter (\<lambda>b. id' b \<in> set (selectedIds s)) (blocks s)))"
    if "currentSum s = targetSum s \<and> 0 < targetSum s" and "distinct (selectedIds s)"
      and "distinct (map id' (blocks s))" and "set (selectedIds s) \<subseteq> id' ` set (blocks s)"
    using fires [OF that(1)] selected_tiles_count [OF that(2) that(3) that(4)] by simp
  have over: "targetSum s < currentSum s \<Longrightarrow> matchEffect gen s = s\<lparr>selectedIds := []\<rparr>"
    by (auto simp: matchEffect_def)
  have under: "\<not> (currentSum s = targetSum s \<and> 0 < targetSum s) \<Longrightarrow>
      \<not> targetSum s < currentSum s \<Longrightarrow> matchEffect gen s = s"
    by (auto simp: matchEffect_def)
  have zero: "targetSum s = 0 \<Longrightarrow>
      score (matchEffect gen s) = score s \<and> blocks (matchEffect gen s) = blocks s \<and>
      status (matchEffect gen s) = status s \<and> timeLeft (matchEffect gen s) = timeLeft s \<and>
      targetSum (matchEffect gen s) = targetSum s"
    by (auto simp: matchEffect_def)
  from iff fires sel classic time tiles over under zero show ?thesis by blast
qed

theorem match_resolver_witness:
  "currentSum (ex_session TIME 10 [''a'', ''d'']) = targetSum (ex_session TIME 10 [''a'', ''d'']) \<and>
   0 < targetSum (ex_session TIME 10 [''a'', ''d'']) \<and>
   mode (ex_session TIME 10 [''a'', ''d'']) = TIME \<and>
   distinct (selectedIds (ex_session TIME 10 [''a'', ''d''])) \<and>
   distinct (map id' (blocks (ex_session TIME 10 [''a'', ''d'']))) \<and>
   set (selectedIds (ex_session TIME 10 [''a'', ''d''])) \<subseteq>
     id' ` set (blocks (ex_session TIME 10 [''a'', ''d''])) \<and>
   length (filter (\<lambda>b. id' b \<in> set (selectedIds (ex_session TIME 10 [''a'', ''d''])))
             (blocks (ex_session TIME 10 [''a'', ''d'']))) = 2 \<and>
   matchEffect ex_gen (ex_session TIME 10 [''a'', ''d'']) =
     \<lparr>status = PLAYING, mode = TIME, blocks = [tile ''b'' 5 9 0, tile ''c'' 9 8 0],
      targetSum = 10, selectedIds = [], score = 20, timeLeft = 10, isPaused = False\<rparr> \<and>
   mode (ex_session CLASSIC 10 [''a'', ''d'']) = CLASSIC \<and>
   matchEffect ex_gen (ex_session CLASSIC 10 [''a'', ''d'']) =
     addRow ex_gen
       \<lparr>status = PLAYING, mode = CLASSIC, blocks = [tile ''b'' 5 9 0, tile ''c'' 9 8 0],
        targetSum = 10, selectedIds = [], score = 20, timeLeft = 7, isPaused = False\<rparr> \<and>
   targetSum (ex_session TIME 0 []) = 0 \<and> currentSum (ex_session TIME 0 []) = 0 \<and>
   score (matchEffect ex_gen (ex_session TIME 0 [])) = 0 \<and>
   blocks (matchEffect ex_gen (ex_session TIME 0 [])) = ex_gaps \<and>
   targetSum (ex_session CLASSIC 5 [''c'']) < currentSum (ex_session CLASSIC 5 [''c'']) \<and>
   matchEffect ex_gen (ex_session CLASSIC 5 [''c'']) = ex_session CLASSIC 5 [] \<and>
   currentSum (ex_session CLASSIC 10 [''a'']) < targetSum (ex_session CLASSIC 10 [''a'']) \<and>
   matchEffect ex_gen (ex_session CLASSIC 10 [''a'']) = ex_session CLASSIC 10 [''a'']"
proof -
  let ?t = "ex_session TIME 10 [''a'', ''d'']"
  let ?c = "ex_session CLASSIC 10 [''a'', ''d'']"
  let ?o = "ex_session CLASSIC 5 [''c'']"
  let ?u = "ex_session CLASSIC 10 [''a'']"
  have t: "currentSum ?t = targetSum ?t \<and> 0 < targetSum ?t"
    by (simp add: ex_currentSum) (simp add: ex_session_def)
  have c: "currentSum ?c = targetSum ?c \<and> 0 < targetSum ?c"
    by (simp add: ex_currentSum) (simp add: ex_session_def)
  have z: "targetSum (ex_session TIME 0 []) = 0 \<and> currentSum (ex_session TIME 0 []) = 0"
    by (simp add: ex_session_def currentSum_def)
  have mt: "mode ?t = TIME" and mc: "mode ?c = CLASSIC"
    by (simp_all add: ex_session_def)
  have clean: "distinct (selectedIds ?t) \<and> distinct (map id' (blocks ?t)) \<and>
               set (selectedIds ?t) \<subseteq> id' ` set (blocks ?t)"
    by (simp add: ex_session_def ex_gaps_def tile_def)
  have two: "length (filter (\<lambda>b. id' b \<in> set (selectedIds ?t)) (blocks ?t)) = 2"
    by (simp add: ex_session_def ex_gaps_def tile_def)
  have o: "targetSum ?o < currentSum ?o"
    by (simp add: currentSum_def ex_session_def ex_gaps_def tile_def)
  have u: "currentSum ?u < targetSum ?u"
    by (simp add: currentSum_def ex_session_def ex_gaps_def tile_def)
  from match_resolver [of ex_gen ?t] t mt
  have r1: "matchEffect ex_gen ?t =
     ?t\<lparr>score := score ?t + targetSum ?t * int (length (selectedIds ?t)),
        blocks := removeAndCompact (selectedIds ?t) (blocks ?t),
        selectedIds := [], timeLeft := TIME_LIMIT\<rparr>"
    by blast
  from match_resolver [of ex_gen ?c] c mc
  have r2: "matchEffect ex_gen ?c =
     addRow ex_gen (?c\<lparr>score := score ?c + targetSum ?c * int (length (selectedIds ?c)),
        blocks := removeAndCompact (selectedIds ?c) (blocks ?c),
        selectedIds := []\<rparr>)"
    by blast
  from match_resolver [of ex_gen "ex_session TIME 0 []"] z
  have r3: "score (matchEffect ex_gen (ex_session TIME 0 [])) = score (ex_session TIME 0 []) \<and>
            blocks (matchEffect ex_gen (ex_session TIME 0 [])) = blocks (ex_session TIME 0 [])"
    by blast
  from match_resolver [of ex_gen ?o] o
  have r4: "matchEffect ex_gen ?o = ?o\<lparr>selectedIds := []\<rparr>"
    by blast
  from match_resolver [of ex_gen ?u] u
  have r5: "matchEffect ex_gen ?u = ?u"
    by auto
  have e1: "matchEffect ex_gen ?t =
     \<lparr>status = PLAYING, mode = TIME, blocks = [tile ''b'' 5 9 0, tile ''c'' 9 8 0],
      targetSum = 10, selectedIds = [], score = 20, timeLeft = 10, isPaused = False\<rparr>"
    unfolding r1 by (simp add: ex_session_def ex_compact_ad TIME_LIMIT_def)
  have e2: "matchEffect ex_gen ?c =
     addRow ex_gen
       \<lparr>status = PLAYING, mode = CLASSIC, blocks = [tile ''b'' 5 9 0, tile ''c'' 9 8 0],
        targetSum = 10, selectedIds = [], score = 20, timeLeft = 7, isPaused = False\<rparr>"
    unfolding r2 by (simp add: ex_session_def ex_compact_ad)
  have e3: "score (matchEffect ex_gen (ex_session TIME 0 [])) = 0 \<and>
            blocks (matchEffect ex_gen (ex_session TIME 0 [])) = ex_gaps"
    using r3 by (simp add: ex_session_def)
  have e4: "matchEffect ex_gen ?o = ex_session CLASSIC 5 []"
    unfolding r4 by (simp add: ex_session_def)
  from t mt mc clean two z o u e1 e2 e3 e4 r5 show ?thesis
    by blast
qed

text \<open>
  With an id of no live tile in the selection (toggled first, then the tiles \<open>a\<close> and
  \<open>d\<close>, the match effect running after each toggle), two tiles are selected and the
  score grows by three times the target.
\<close>

theorem match_stale_id_counterexample:
  "matchEffect ex_gen (toggleBlock ''a''
     (matchEffect ex_gen (toggleBlock ''ghost'' (ex_session TIME 10 [])))) =
     ex_session TIME 10 [''ghost'', ''a''] \<and>
   toggleBlock ''d'' (ex_session TIME 10 [''ghost'', ''a'']) =
     ex_session TIME 10 [''ghost'', ''a'', ''d''] \<and>
   currentSum (ex_session TIME 10 [''ghost'', ''a'', ''d'']) = 10 \<and>
   targetSum (ex_session TIME 10 [''ghost'', ''a'', ''d'']) = 10 \<and>
   length (filter (\<lambda>b. id' b \<in> set (selectedIds (ex_session TIME 10 [''ghost'', ''a'', ''d''])))
             (blocks (ex_session TIME 10 [''ghost'', ''a'', ''d'']))) = 2 \<and>
   score (ex_session TIME 10 [''ghost'', ''a'', ''d'']) = 0 \<and>
   score (matchEffect ex_gen (ex_session TIME 10 [''ghost'', ''a'', ''d''])) = 30"
  by code_simp

text \<open>
  C4. When the current sum exceeds the target, the match effect empties the selection
  and changes nothing else: score, grid and target stay as they were.
\<close>

theorem overshoot_clears_selection:
  "targetSum s < currentSum s \<Longrightarrow>
     matchEffect gen s = s\<lparr>selectedIds := []\<rparr> \<and>
     selectedIds (matchEffect gen s) = [] \<and>
     score (matchEffect gen s) = score s \<and>
     blocks (matchEffect gen s) = blocks s \<and>
     targetSum (matchEffect gen s) = targetSum s"
  by (auto simp: matchEffect_def)

theorem overshoot_clears_selection_witness:
  "targetSum (ex_session TIME 5 [''c'']) < currentSum (ex_session TIME 5 [''c'']) \<and>
   matchEffect ex_gen (ex_session TIME 5 [''c'']) = ex_session TIME 5 []"
proof -
  have h: "targetSum (ex_session TIME 5 [''c'']) < currentSum (ex_session TIME 5 [''c''])"
    by (simp add: currentSum_def ex_session_def ex_gaps_def tile_def)
  from overshoot_clears_selection [OF h, of ex_gen] h show ?thesis
    by (simp add: ex_session_def)
qed

section \<open>Target generator\<close>

text \<open>
  C5. \<open>generateTarget\<close> returns 10 for the empty list. For a non-empty list, a draw
  \<open>k = draw + 2\<close> from 2, 3, 4 and a shuffle that rearranges the list, it returns the
  sum of the values of \<open>min k (length bs)\<close> distinct tiles of the list (a sub-multiset
  \<open>S\<close> of that size), clamped to the interval from 10 to 45; the result always lies
  in that interval.
\<close>

theorem generateTarget_sample:
  assumes "draw < 3" and "mset (shuffle bs) = mset bs"
  shows "generateTarget draw shuffle [] = 10 \<and>
         (bs \<noteq> [] \<longrightarrow>
            (\<exists>S. S \<subseteq># mset bs \<and> size S = min (draw + 2) (length bs) \<and>
                 generateTarget draw shuffle bs =
                   max 10 (min (sum_mset (image_mset value' S)) 45))) \<and>
         10 \<le> generateTarget draw shuffle bs \<and> generateTarget draw shuffle bs \<le> 45"
proof -
  let ?S = "mset (take (draw + 2) (shuffle bs))"
  have empty: "generateTarget draw shuffle [] = 10"
    by (simp add: generateTarget_def)
  have sub: "?S \<subseteq># mset bs"
    using mset_take_subset [of "draw + 2" "shuffle bs"] assms(2) by simp
  have "length (shuffle bs) = length bs"
    using assms(2) by (rule mset_eq_length)
  then have sz: "size ?S = min (draw + 2) (length bs)"
    by simp
  have "sum_mset (image_mset value' ?S) = sum_list (map value' (take (draw + 2) (shuffle bs)))"
    by (simp only: mset_map [symmetric] sum_mset_sum_list)
  then have val: "bs \<noteq> [] \<Longrightarrow>
      generateTarget draw shuffle bs = max 10 (min (sum_mset (image_mset value' ?S)) 45)"
    by (simp add: generateTarget_def Let_def foldl_add_sum_list)
  have range: "10 \<le> generateTarget draw shuffle bs \<and> generateTarget draw shuffle bs \<le> 45"
    by (simp add: generateTarget_def Let_def)
  from empty sub sz val range show ?thesis by blast
qed

theorem generateTarget_sample_witness:
  "(1::nat) < 3 \<and> mset (rev ex_gaps) = mset ex_gaps \<and> ex_gaps \<noteq> [] \<and>
   generateTarget 1 rev ex_gaps = 20 \<and>
   10 \<le> generateTarget 1 rev ex_gaps \<and> generateTarget 1 rev ex_gaps \<le> 45"
proof -
  have a: "(1::nat) < 3" by simp
  have b: "mset (rev ex_gaps) = mset ex_gaps" by simp
  have c: "ex_gaps \<noteq> []" by (simp add: ex_gaps_def)
  have v: "generateTarget 1 rev ex_gaps = 20"
    by (simp add: generateTarget_def ex_gaps_def tile_def)
  from generateTarget_sample [where draw = 1 and shuffle = rev and bs = ex_gaps] a b c v
  show ?thesis
    by blast
qed

text \<open>
  With a single tile on the grid no sample of 2, 3 or 4 tiles exists: the value
  returned, 10, is the clamped value of that one tile.
\<close>

theorem generateTarget_single_tile_counterexample:
  "\<not> (\<exists>S. S \<subseteq># mset [tile ''a'' 5 9 0] \<and> size S \<in> {2, 3, 4} \<and>
          generateTarget 0 (\<lambda>bs. bs) [tile ''a'' 5 9 0] =
            max 10 (min (sum_mset (image_mset value' S)) 45))"
proof
  assume "\<exists>S. S \<subseteq># mset [tile ''a'' 5 9 0] \<and> size S \<in> {2, 3, 4} \<and>
          generateTarget 0 (\<lambda>bs. bs) [tile ''a'' 5 9 0] =
            max 10 (min (sum_mset (image_mset value' S)) 45)"
  then obtain S where "S \<subseteq># mset [tile ''a'' 5 9 0]" and big: "size S \<in> {2, 3, 4}"
    by blast
  then have "size S \<le> size (mset [tile ''a'' 5 9 0])"
    by (intro size_mset_mono)
  with big show False by auto
qed

section \<open>Toggling\<close>

text \<open>
  C6. A toggle while the status is not PLAYING, or while the game is paused, leaves the
  whole state as it is. While playing and not paused, \<open>toggleBlock\<close> does not look at
  the grid: an id that belongs to no live tile is toggled like any other, so the
  selection changes, while grid, score, target, status and the current sum stay as they
  were.
\<close>

theorem toggle_guarded:
  "((status s \<noteq> PLAYING \<or> isPaused s) \<longrightarrow> toggleBlock i s = s) \<and>
   (status s = PLAYING \<and> \<not> isPaused s \<and> i \<notin> id' ` set (blocks s) \<longrightarrow>
      toggleBlock i s =
        s\<lparr>selectedIds := (if i \<in> set (selectedIds s)
                           then filter (\<lambda>j. j \<noteq> i) (selectedIds s)
                           else selectedIds s @ [i])\<rparr> \<and>
      blocks (toggleBlock i s) = blocks s \<and> score (toggleBlock i s) = score s \<and>
      targetSum (toggleBlock i s) = targetSum s \<and> status (toggleBlock i s) = status s \<and>
      currentSum (toggleBlock i s) = currentSum s)"
proof -
  have stale: "currentSum (toggleBlock i s) = currentSum s" if "i \<notin> id' ` set (blocks s)"
  proof -
    have "filter (\<lambda>b. id' b \<in> set (selectedIds (toggleBlock i s))) (blocks s) =
          filter (\<lambda>b. id' b \<in> set (selectedIds s)) (blocks s)"
      using that
      by (simp add: toggleBlock_def Let_def filter_id_append_absent filter_id_remove_absent
          del: set_filter set_append)
    moreover have "blocks (toggleBlock i s) = blocks s"
      by (simp add: toggleBlock_def)
    ultimately show ?thesis
      by (simp add: currentSum_def)
  qed
  have guard: "status s \<noteq> PLAYING \<or> isPaused s \<Longrightarrow> toggleBlock i s = s"
    by (auto simp: toggleBlock_def)
  have shape: "status s = PLAYING \<and> \<not> isPaused s \<Longrightarrow>
      toggleBlock i s =
        s\<lparr>selectedIds := (if i \<in> set (selectedIds s)
                           then filter (\<lambda>j. j \<noteq> i) (selectedIds s)
                           else selectedIds s @ [i])\<rparr>"
    by (simp add: toggleBlock_def Let_def)
  have frame: "blocks (toggleBlock i s) = blocks s \<and> score (toggleBlock i s) = score s \<and>
      targetSum (toggleBlock i s) = targetSum s \<and> status (toggleBlock i s) = status s"
    by (simp add: toggleBlock_def)
  from guard shape frame stale show ?thesis by blast
qed

theorem toggle_guarded_witness:
  "isPaused ((ex_session TIME 10 [''a''])\<lparr>isPaused := True\<rparr>) \<and>
   toggleBlock ''b'' ((ex_session TIME 10 [''a''])\<lparr>isPaused := True\<rparr>) =
     (ex_session TIME 10 [''a''])\<lparr>isPaused := True\<rparr> \<and>
   status (ex_session TIME 10 [''a'']) = PLAYING \<and> \<not> isPaused (ex_session TIME 10 [''a'']) \<and>
   ''ghost'' \<notin> id' ` set (blocks (ex_session TIME 10 [''a''])) \<and>
   toggleBlock ''ghost'' (ex_session TIME 10 [''a'']) = ex_session TIME 10 [''a'', ''ghost''] \<and>
   currentSum (toggleBlock ''ghost'' (ex_session TIME 10 [''a''])) =
     currentSum (ex_session TIME 10 [''a''])"
proof -
  have p: "isPaused ((ex_session TIME 10 [''a''])\<lparr>isPaused := True\<rparr>)"
    by simp
  have v: "status (ex_session TIME 10 [''a'']) = PLAYING \<and> \<not> isPaused (ex_session TIME 10 [''a'']) \<and>
           ''ghost'' \<notin> id' ` set (blocks (ex_session TIME 10 [''a'']))"
    by (simp add: ex_session_def ex_gaps_def tile_def)
  from toggle_guarded [of "(ex_session TIME 10 [''a''])\<lparr>isPaused := True\<rparr>" "''b''"] p
  have r1: "toggleBlock ''b'' ((ex_session TIME 10 [''a''])\<lparr>isPaused := True\<rparr>) =
            (ex_session TIME 10 [''a''])\<lparr>isPaused := True\<rparr>"
    by blast
  from toggle_guarded [of "ex_session TIME 10 [''a'']" "''ghost''"] v
  have r2: "toggleBlock ''ghost'' (ex_session TIME 10 [''a'']) =
        (ex_session TIME 10 [''a''])\<lparr>selectedIds :=
           (if ''ghost'' \<in> set (selectedIds (ex_session TIME 10 [''a'']))
            then filter (\<lambda>j. j \<noteq> ''ghost'') (selectedIds (ex_session TIME 10 [''a'']))
            else selectedIds (ex_session TIME 10 [''a'']) @ [''ghost''])\<rparr> \<and>
      currentSum (toggleBlock ''ghost'' (ex_session TIME 10 [''a''])) =
        currentSum (ex_session TIME 10 [''a''])"
    by blast
  have r2': "toggleBlock ''ghost'' (ex_session TIME 10 [''a'']) = ex_session TIME 10 [''a'', ''ghost'']"
    using r2 by (simp add: ex_session_def)
  from p v r1 r2 r2' show ?thesis by blast
qed

text \<open>
  While playing and not paused, toggling an id of no live tile on an empty selection
  leaves that id selected.
\<close>

theorem toggle_stale_id_counterexample:
  "status (ex_session TIME 10 []) = PLAYING \<and> \<not> isPaused (ex_session TIME 10 []) \<and>
   ''ghost'' \<notin> set (map id' (blocks (ex_session TIME 10 []))) \<and>
   selectedIds (ex_session TIME 10 []) = [] \<and>
   selectedIds (toggleBlock ''ghost'' (ex_session TIME 10 [])) = [''ghost''] \<and>
   toggleBlock ''ghost'' (ex_session TIME 10 []) \<noteq> ex_session TIME 10 []"
  by (simp add: toggleBlock_def ex_session_def ex_gaps_def tile_def)




section \<open>Countdown\<close>

text \<open>
  C8. While the timer runs (PLAYING, TIME mode, not paused), a tick with more than one
  second left takes one second off and calls \<open>addRow\<close> not at all. Starting from
  \<open>TIME_LIMIT\<close>, the first nine ticks count down to 1 without a call of \<open>addRow\<close>, and
  the tenth calls \<open>addRow\<close> once and puts the countdown back to \<open>TIME_LIMIT\<close>. A
  countdown that is not negative never becomes negative, however many ticks follow.
\<close>

theorem countdown_ten_ticks:
  assumes "timerActive s"
  shows "(1 < timeLeft s \<longrightarrow> tick gen s = (s\<lparr>timeLeft := timeLeft s - 1\<rparr>, 0)) \<and>
         (timeLeft s = TIME_LIMIT \<longrightarrow>
            (\<forall>k < 10. ticks k gens s = (s\<lparr>timeLeft := TIME_LIMIT - int k\<rparr>, 0)) \<and>
            ticks 10 gens s = (addRow (gens 9) s, 1) \<and>
            timeLeft (fst (ticks 10 gens s)) = TIME_LIMIT \<and>
            snd (ticks 10 gens s) = 1) \<and>
         (0 \<le> timeLeft s \<longrightarrow> (\<forall>n. 0 \<le> timeLeft (fst (ticks n gens s))))"
proof -
  have dec: "1 < timeLeft s \<Longrightarrow> tick gen s = (s\<lparr>timeLeft := timeLeft s - 1\<rparr>, 0)"
    using assms by (rule tick_counting)
  have early: "timeLeft s = TIME_LIMIT \<Longrightarrow> k < 10 \<Longrightarrow>
      ticks k gens s = (s\<lparr>timeLeft := TIME_LIMIT - int k\<rparr>, 0)" for k
    using ticks_counting [OF assms, of k gens] by (simp add: TIME_LIMIT_def)
  have tenth: "ticks 10 gens s = (addRow (gens 9) s, 1)" if tl: "timeLeft s = TIME_LIMIT"
  proof -
    have nine: "ticks 9 gens s = (s\<lparr>timeLeft := 1\<rparr>, 0)"
      using early [OF tl, of 9] by (simp add: TIME_LIMIT_def)
    have act: "timerActive (s\<lparr>timeLeft := 1\<rparr>)"
      using assms by (simp add: timerActive_def)
    have "tick (gens 9) (s\<lparr>timeLeft := 1\<rparr>) = (addRow (gens 9) (s\<lparr>timeLeft := TIME_LIMIT\<rparr>), 1)"
      using tick_spawning [OF act, of "gens 9"] by simp
    moreover have "s\<lparr>timeLeft := TIME_LIMIT\<rparr> = s"
      using tl by simp
    ultimately have step: "tick (gens 9) (s\<lparr>timeLeft := 1\<rparr>) = (addRow (gens 9) s, 1)"
      by simp
    have ten: "(10::nat) = Suc 9" by simp
    show ?thesis
      unfolding ten ticks.simps nine by (simp add: step)
  qed
  have nonneg: "0 \<le> timeLeft s \<Longrightarrow> 0 \<le> timeLeft (fst (ticks n gens s))" for n
    by (rule ticks_timeLeft_nonneg)
  from dec early tenth nonneg show ?thesis
    by (auto simp: addRow_frame)
qed

theorem countdown_ten_ticks_witness:
  "timerActive ((ex_session TIME 10 [])\<lparr>timeLeft := 10\<rparr>) \<and>
   timeLeft ((ex_session TIME 10 [])\<lparr>timeLeft := 10\<rparr>) = TIME_LIMIT \<and>
   timeLeft (fst (ticks 3 (\<lambda>k. ex_gen) ((ex_session TIME 10 [])\<lparr>timeLeft := 10\<rparr>))) = 7 \<and>
   snd (ticks 9 (\<lambda>k. ex_gen) ((ex_session TIME 10 [])\<lparr>timeLeft := 10\<rparr>)) = 0 \<and>
   timeLeft (fst (ticks 10 (\<lambda>k. ex_gen) ((ex_session TIME 10 [])\<lparr>timeLeft := 10\<rparr>))) = 10 \<and>
   snd (ticks 10 (\<lambda>k. ex_gen) ((ex_session TIME 10 [])\<lparr>timeLeft := 10\<rparr>)) = 1 \<and>
   length (blocks (fst (ticks 10 (\<lambda>k. ex_gen) ((ex_session TIME 10 [])\<lparr>timeLeft := 10\<rparr>)))) = 10"
proof -
  let ?s = "(ex_session TIME 10 [])\<lparr>timeLeft := 10\<rparr>"
  have a: "timerActive ?s"
    by (simp add: timerActive_def ex_session_def)
  have l: "timeLeft ?s = TIME_LIMIT"
    by (simp add: TIME_LIMIT_def)
  note r = countdown_ten_ticks [OF a, of ex_gen "\<lambda>k. ex_gen"]
  from r l have k3: "ticks 3 (\<lambda>k. ex_gen) ?s = (?s\<lparr>timeLeft := TIME_LIMIT - int 3\<rparr>, 0)"
    by simp
  from r l have k9: "ticks 9 (\<lambda>k. ex_gen) ?s = (?s\<lparr>timeLeft := TIME_LIMIT - int 9\<rparr>, 0)"
    by simp
  from r l have k10: "ticks 10 (\<lambda>k. ex_gen) ?s = (addRow ex_gen ?s, 1)"
    by blast
  have grown: "length (blocks (addRow ex_gen ?s)) = 10"
    by (simp add: addRow_def ex_session_def ex_gaps_def tile_def newRow_def GRID_COLS_def)
  have e3: "timeLeft (fst (ticks 3 (\<lambda>k. ex_gen) ?s)) = 7"
    unfolding k3 by (simp add: TIME_LIMIT_def)
  have e9: "snd (ticks 9 (\<lambda>k. ex_gen) ?s) = 0"
    unfolding k9 by simp
  have e10: "timeLeft (fst (ticks 10 (\<lambda>k. ex_gen) ?s)) = 10 \<and> snd (ticks 10 (\<lambda>k. ex_gen) ?s) = 1 \<and>
             length (blocks (fst (ticks 10 (\<lambda>k. ex_gen) ?s))) = 10"
    unfolding k10 by (simp add: grown addRow_frame)
  from a l e3 e9 e10 show ?thesis by blast
qed

section \<open>Target regeneration\<close>

text \<open>
  C7. \<open>ex_new_game\<close> is a fresh CLASSIC game (24 tiles, target 12, regenerated as 12 by
  the target effect when the status turns to PLAYING), and \<open>ex_six\<close> the session after
  the player has selected the six tiles of the bottom row, which sum to 12. The match
  removes six tiles and \<open>addRow\<close> adds six, so the render that follows sees a new grid
  with the old tile count and the old status: the dependencies of the target effect
  are unchanged, its body does not run, and the target stays 12, whatever the random
  draws would have been. Regenerated from the new grid with the draw 2 and the
  reversing shuffle, the target would be 36.
\<close>

theorem target_kept_after_six_tile_match:
  "targetEffect 2 (\<lambda>bs. bs) (Some (0, MENU)) ex_new_game = ex_new_game \<and>
   length (blocks ex_six) = 24 \<and> targetSum ex_six = 12 \<and> currentSum ex_six = 12 \<and>
   status (matchEffect ex_gen ex_six) = PLAYING \<and>
   score (matchEffect ex_gen ex_six) = 72 \<and>
   blocks (matchEffect ex_gen ex_six) =
     map (\<lambda>b. b\<lparr>row := row b - 1\<rparr>) (removeAndCompact (selectedIds ex_six) (blocks ex_six)) @
     newRow ex_gen \<and>
   length (blocks (matchEffect ex_gen ex_six)) = 24 \<and>
   targetDeps (matchEffect ex_gen ex_six) = targetDeps ex_six \<and>
   targetEffect draw shuffle (Some (targetDeps ex_six)) (matchEffect ex_gen ex_six) =
     matchEffect ex_gen ex_six \<and>
   targetSum (matchEffect ex_gen ex_six) = 12 \<and>
   generateTarget 2 rev (blocks (matchEffect ex_gen ex_six)) = 36"
proof -
  have start: "targetEffect 2 (\<lambda>bs. bs) (Some (0, MENU)) ex_new_game = ex_new_game"
    by code_simp
  have before: "length (blocks ex_six) = 24 \<and> targetSum ex_six = 12 \<and> currentSum ex_six = 12"
    by code_simp
  have after: "status (matchEffect ex_gen ex_six) = PLAYING \<and>
      score (matchEffect ex_gen ex_six) = 72 \<and>
      blocks (matchEffect ex_gen ex_six) =
        map (\<lambda>b. b\<lparr>row := row b - 1\<rparr>) (removeAndCompact (selectedIds ex_six) (blocks ex_six)) @
        newRow ex_gen \<and>
      length (blocks (matchEffect ex_gen ex_six)) = 24 \<and>
      targetSum (matchEffect ex_gen ex_six) = 12"
    by code_simp
  have deps: "targetDeps (matchEffect ex_gen ex_six) = targetDeps ex_six"
    by code_simp
  have kept: "targetEffect draw shuffle (Some (targetDeps ex_six)) (matchEffect ex_gen ex_six) =
     matchEffect ex_gen ex_six"
    by (simp add: targetEffect_def deps)
  have fresh: "generateTarget 2 rev (blocks (matchEffect ex_gen ex_six)) = 36"
    by code_simp
  from start before after deps kept fresh show ?thesis
    by blast
qed

end
